theory Spec2Isabelle
  imports Main "HOL-Library.Word" "HOL-Library.Signed_Division"
begin

section \<open>The kitchen timer clock: data\<close>

text \<open>
  The sketch \<^verbatim>\<open>KitchenTimerClock.ino\<close> runs on an ATmega328 board (toneAC on pins 9
  and 10, I2C on A4/A5, LED on pin 13), so \<^verbatim>\<open>byte\<close> is 8 bits, \<^verbatim>\<open>int\<close> and
  \<^verbatim>\<open>unsigned\<close> are 16 bits and \<^verbatim>\<open>unsigned long\<close> is 32 bits. Unsigned
  arithmetic wraps, which is what \<open>+\<close> and \<open>-\<close> on words do; a signed \<^verbatim>\<open>int\<close> is
  a 16-bit word read through \<open>sint\<close> (\<open><s\<close>, \<open>\<le>s\<close>).
\<close>

type_synonym byte = "8 word"
type_synonym u16 = "16 word"
type_synonym i16 = "16 word"
type_synonym u32 = "32 word"

text \<open>The anonymous \<^verbatim>\<open>enum\<close> of modes held in \<^verbatim>\<open>state\<close>.\<close>

datatype mode = CLOCK | SET_HOUR | SET_MINUTE | SET_TIMER | COUNTDOWN | ALARM

text \<open>
  The globals of the sketch and the \<^verbatim>\<open>static\<close> locals of \<^verbatim>\<open>loop\<close>. The last two
  fields are the arguments of the latest \<^verbatim>\<open>display.setBrightness\<close> call, that is the
  brightness the display module applies. Calls that only drive a peripheral and are
  never read back by the controller (the segment buffer written by \<^verbatim>\<open>showClock\<close> and
  \<^verbatim>\<open>showTimer\<close>, the buzzer sequence of \<^verbatim>\<open>bellSound\<close>, the write to the RTC chip,
  the status LED, the serial log) are not part of the record.
\<close>

record controller =
  clockHour :: byte
  clockMinute :: byte
  rtcPresent :: bool
  minuteMillis :: u32
  timerSeconds :: u16
  previousMillis :: u32
  displayRefreshMillis :: u32
  displayTimeoutMillis :: u32
  alarmStartMillis :: u32
  timerStartSeconds :: u16
  blink :: byte
  state :: mode
  buttonPushedMillis :: u32
  lastLDRReading :: i16
  brightness :: byte
  displayOn :: bool

text \<open>
  What one pass of \<^verbatim>\<open>loop\<close> reads from the outside: \<^verbatim>\<open>millis()\<close> at the top,
  \<^verbatim>\<open>encoder.read()\<close> narrowed to \<^verbatim>\<open>int\<close>, the two edge flags of the debounced
  button after \<^verbatim>\<open>button.update()\<close>, the later \<^verbatim>\<open>millis()\<close> of the release handler,
  and \<^verbatim>\<open>analogRead(LDR_PIN)\<close> stored in an \<^verbatim>\<open>unsigned\<close>.
\<close>

record loop_input =
  currentMillis :: u32
  encoderRead :: i16
  buttonFell :: bool
  buttonRose :: bool
  laterMillis :: u32
  analogReading :: u16

text \<open>The constants of the sketch.\<close>

definition ENCODER_PULSES_PER_STEP :: i16 where "ENCODER_PULSES_PER_STEP = 4"
definition DISPLAY_REFRESH_INTERVAL :: u32 where "DISPLAY_REFRESH_INTERVAL = 100"
definition LONG_PUSH_INTERVAL :: u32 where "LONG_PUSH_INTERVAL = 3000"
definition SET_TIME_BLINK_MILLIS :: u32 where "SET_TIME_BLINK_MILLIS = 150"
definition ALARM_BLINK_MILLIS :: u32 where "ALARM_BLINK_MILLIS = 700"
definition BELL_REPEAT_INTERVAL :: u32 where "BELL_REPEAT_INTERVAL = 10000"
definition TIMER_DISPLAY_TIMEOUT :: u32 where "TIMER_DISPLAY_TIMEOUT = 60000"
definition MINUTE_MILIS :: u32 where "MINUTE_MILIS = 60000 - 6"
definition CLOCK_MILIS_CORRECTION_PER_HOUR :: u32 where "CLOCK_MILIS_CORRECTION_PER_HOUR = 75"
definition LDR_MAX_LIGHT :: u16 where "LDR_MAX_LIGHT = 500"

section \<open>The sections of \<^verbatim>\<open>loop\<close>\<close>

text \<open>\<^verbatim>\<open>blink = !blink\<close> on a byte.\<close>

definition lnot :: "byte \<Rightarrow> byte" where
  "lnot b = (if b = 0 then 1 else 0)"

text \<open>
  The clock: the fast blink while the time is being set, otherwise the minute rollover
  with its correction at the top of the hour.
\<close>

definition clock_section :: "u32 \<Rightarrow> controller \<Rightarrow> controller" where
  "clock_section now c =
     (if state c = SET_HOUR \<or> state c = SET_MINUTE then
        (if now - previousMillis c \<ge> SET_TIME_BLINK_MILLIS
         then c\<lparr>previousMillis := now, blink := lnot (blink c)\<rparr>
         else c)
      else if now - minuteMillis c > MINUTE_MILIS then
        (let c1 = c\<lparr>minuteMillis := minuteMillis c + MINUTE_MILIS\<rparr> in
         if clockMinute c1 < 59 then c1\<lparr>clockMinute := clockMinute c1 + 1\<rparr>
         else c1\<lparr>clockMinute := 0,
                 clockHour := (if clockHour c1 < 23 then clockHour c1 + 1 else 0),
                 minuteMillis := minuteMillis c1 - CLOCK_MILIS_CORRECTION_PER_HOUR\<rparr>)
      else c)"

text \<open>The block run every second: the countdown and the colon of the clock.\<close>

definition second_section :: "u32 \<Rightarrow> controller \<Rightarrow> controller" where
  "second_section now c =
     (if now - previousMillis c \<ge> 1000 then
        (let c1 = c\<lparr>previousMillis := previousMillis c + 1000\<rparr> in
         case state c1 of
           COUNTDOWN \<Rightarrow>
             (if timerSeconds c1 > 0 then
                (let c2 = c1\<lparr>timerSeconds := timerSeconds c1 - 1\<rparr> in
                 if timerSeconds c2 = 0 then c2\<lparr>state := ALARM, alarmStartMillis := 0\<rparr>
                 else c2)
              else c1)
         | CLOCK \<Rightarrow> c1\<lparr>blink := lnot (blink c1)\<rparr>
         | _ \<Rightarrow> c1)
      else c)"

text \<open>
  The Arduino macro \<^verbatim>\<open>abs(x)\<close> is \<^verbatim>\<open>((x)>0?(x):-(x))\<close>. On an \<^verbatim>\<open>int\<close> the
  comparison is signed (at \<open>-32768\<close> the negation wraps to itself); on an
  \<^verbatim>\<open>unsigned\<close> operand the comparison and the negation are unsigned.
\<close>

definition abs_int :: "i16 \<Rightarrow> i16" where
  "abs_int x = (if 0 <s x then x else - x)"

definition abs_unsigned :: "u16 \<Rightarrow> u16" where
  "abs_unsigned x = (if 0 < x then x else - x)"

text \<open>
  The step of the timer. In \<^verbatim>\<open>timerSeconds + dir\<close> the \<^verbatim>\<open>int\<close> is converted to
  \<^verbatim>\<open>unsigned\<close>, so the sum and the comparisons are unsigned 16-bit. The variable
  \<^verbatim>\<open>step\<close> is a byte that the source overwrites outside \<^verbatim>\<open>COUNTDOWN\<close>: with
  \<^verbatim>\<open>step - (timerSeconds % step)\<close> when the dial goes up, with the non-zero remainder
  \<^verbatim>\<open>m\<close> when it goes down. \<open>inc_step\<close> and \<open>dec_step\<close> are its value at the range
  test of each branch.
\<close>

definition stepSize :: "u16 \<Rightarrow> i16 \<Rightarrow> byte" where
  "stepSize ts dir =
     (if ts + dir > 6 * 60 then 60
      else if ts + dir > 3 * 60 then 30
      else if ts + dir > 60 then 15
      else if ts = 0 then 10
      else 5)"

definition inc_step :: "mode \<Rightarrow> u16 \<Rightarrow> i16 \<Rightarrow> byte" where
  "inc_step st ts dir =
     (let step = stepSize ts dir in
      if st \<noteq> COUNTDOWN then ucast ((ucast step :: u16) - ts mod ucast step) else step)"

definition dec_step :: "mode \<Rightarrow> u16 \<Rightarrow> i16 \<Rightarrow> byte" where
  "dec_step st ts dir =
     (let step = stepSize ts dir in
      if st \<noteq> COUNTDOWN then
        (let m = (ts mod ucast step :: i16) in if m \<noteq> 0 then ucast m else step)
      else step)"

definition timer_adjust :: "i16 \<Rightarrow> controller \<Rightarrow> controller" where
  "timer_adjust dir c =
     (let c0 = c\<lparr>displayTimeoutMillis := 0\<rparr>;
          c1 =
            (if 0 <s dir then
               (let step = inc_step (state c0) (timerSeconds c0) dir in
                if timerSeconds c0 + ucast step < 6000
                then c0\<lparr>timerSeconds := timerSeconds c0 + ucast step\<rparr>
                else c0)
             else
               (let step = dec_step (state c0) (timerSeconds c0) dir in
                if timerSeconds c0 \<ge> ucast step
                then c0\<lparr>timerSeconds := timerSeconds c0 - ucast step\<rparr>
                else c0))
      in if state c1 \<noteq> COUNTDOWN \<and> 0 <s dir then c1\<lparr>state := SET_TIMER\<rparr> else c1)"

definition encoder_section :: "i16 \<Rightarrow> controller \<Rightarrow> controller" where
  "encoder_section dir c =
     (if ENCODER_PULSES_PER_STEP \<le>s abs_int dir then
        (if state c = SET_HOUR then
           (if 0 <s dir
            then c\<lparr>clockHour := (if clockHour c < 23 then clockHour c + 1 else 0)\<rparr>
            else c\<lparr>clockHour := (if clockHour c > 0 then clockHour c - 1 else 23)\<rparr>)
         else if state c = SET_MINUTE then
           (if 0 <s dir
            then c\<lparr>clockMinute := (if clockMinute c < 59 then clockMinute c + 1 else 0)\<rparr>
            else c\<lparr>clockMinute := (if clockMinute c > 0 then clockMinute c - 1 else 59)\<rparr>)
         else timer_adjust dir c)
      else c)"

text \<open>The button: the press is time-stamped, a hold fires once, a release is a short press.\<close>

definition long_push :: "controller \<Rightarrow> controller" where
  "long_push c =
     (let c1 = c\<lparr>buttonPushedMillis := 0, displayTimeoutMillis := 0\<rparr> in
      case state c1 of
        SET_TIMER \<Rightarrow> c1\<lparr>timerSeconds := 0, timerStartSeconds := 0\<rparr>
      | CLOCK \<Rightarrow> c1\<lparr>state := SET_HOUR\<rparr>
      | _ \<Rightarrow> c1)"

definition button_released :: "u32 \<Rightarrow> controller \<Rightarrow> controller" where
  "button_released later c =
     (let c1 = c\<lparr>buttonPushedMillis := 0, displayTimeoutMillis := 0\<rparr> in
      case state c1 of
        SET_HOUR \<Rightarrow> c1\<lparr>state := SET_MINUTE\<rparr>
      | SET_MINUTE \<Rightarrow> c1\<lparr>state := CLOCK, minuteMillis := later\<rparr>
      | CLOCK \<Rightarrow> c1\<lparr>state := SET_TIMER\<rparr>
      | COUNTDOWN \<Rightarrow> c1\<lparr>state := SET_TIMER\<rparr>
      | ALARM \<Rightarrow> c1\<lparr>state := SET_TIMER, timerSeconds := timerStartSeconds c1\<rparr>
      | SET_TIMER \<Rightarrow>
          (if timerSeconds c1 > 0 then
             c1\<lparr>state := COUNTDOWN, previousMillis := later,
                timerStartSeconds := (if timerStartSeconds c1 < timerSeconds c1
                                      then timerSeconds c1 else timerStartSeconds c1)\<rparr>
           else c1\<lparr>state := CLOCK, timerStartSeconds := 0\<rparr>))"

definition button_section :: "u32 \<Rightarrow> u32 \<Rightarrow> bool \<Rightarrow> bool \<Rightarrow> controller \<Rightarrow> controller" where
  "button_section now later fell rose c =
     (let c1 = (if fell then c\<lparr>buttonPushedMillis := now\<rparr> else c);
          c2 = (if buttonPushedMillis c1 \<noteq> 0 \<and> now - buttonPushedMillis c1 > LONG_PUSH_INTERVAL
                then long_push c1 else c1)
      in if rose \<and> buttonPushedMillis c2 \<noteq> 0 then button_released later c2 else c2)"

text \<open>The timeout of the timer display.\<close>

definition timeout_section :: "u32 \<Rightarrow> controller \<Rightarrow> controller" where
  "timeout_section now c =
     (if state c = SET_TIMER then
        (let c1 = (if displayTimeoutMillis c = 0 then c\<lparr>displayTimeoutMillis := now\<rparr> else c) in
         if now - displayTimeoutMillis c1 > TIMER_DISPLAY_TIMEOUT
         then c1\<lparr>displayTimeoutMillis := 0, state := CLOCK, timerSeconds := 0,
                 timerStartSeconds := 0\<rparr>
         else c1)
      else c)"

text \<open>The alarm: the slow blink and the restart of the bell every ten seconds.\<close>

definition alarm_section :: "u32 \<Rightarrow> controller \<Rightarrow> controller" where
  "alarm_section now c =
     (if state c = ALARM then
        (let c1 = (if now - previousMillis c \<ge> ALARM_BLINK_MILLIS
                   then c\<lparr>previousMillis := now, blink := lnot (blink c)\<rparr> else c)
         in if now - alarmStartMillis c1 > BELL_REPEAT_INTERVAL \<or> alarmStartMillis c1 = 0
            then c1\<lparr>alarmStartMillis := now\<rparr> else c1)
      else c)"

text \<open>
  \<^verbatim>\<open>map\<close> of the Arduino core, on \<^verbatim>\<open>long\<close>:
  \<^verbatim>\<open>(x - in_min) * (out_max - out_min) / (in_max - in_min) + out_min\<close>, with the
  truncating division of C. The arguments of the sketch stay far inside 32 bits.
\<close>

definition map_long :: "int \<Rightarrow> int \<Rightarrow> int \<Rightarrow> int \<Rightarrow> int \<Rightarrow> int" where
  "map_long x in_min in_max out_min out_max =
     (x - in_min) * (out_max - out_min) sdiv (in_max - in_min) + out_min"

text \<open>
  The display refresh. In \<^verbatim>\<open>abs(a - lastLDRReading)\<close> the operand \<^verbatim>\<open>a\<close> is
  \<^verbatim>\<open>unsigned\<close>, so the difference is an unsigned 16-bit value and so is the result of
  the macro.
\<close>

definition display_section :: "u32 \<Rightarrow> u16 \<Rightarrow> controller \<Rightarrow> controller" where
  "display_section now a c =
     (if now - displayRefreshMillis c > DISPLAY_REFRESH_INTERVAL then
        (let c1 = c\<lparr>displayRefreshMillis := now\<rparr> in
         if state c1 = ALARM then
           c1\<lparr>brightness := 7, displayOn := (blink c1 \<noteq> 0), lastLDRReading := 1300\<rparr>
         else if abs_unsigned (a - lastLDRReading c1) > 10 then
           c1\<lparr>lastLDRReading := a,
              brightness := (if a > LDR_MAX_LIGHT then 7
                             else word_of_int (map_long (uint a) 0 (uint LDR_MAX_LIGHT) 1 1)),
              displayOn := True\<rparr>
         else c1)
      else c)"

text \<open>
  One pass of \<^verbatim>\<open>loop\<close>, the sections in the order of the source: first the two that
  only look at the time, then the encoder, the button, the timeout, the alarm and the
  display.
\<close>

definition timekeeping :: "loop_input \<Rightarrow> controller \<Rightarrow> controller" where
  "timekeeping i c = second_section (currentMillis i) (clock_section (currentMillis i) c)"

definition interaction :: "loop_input \<Rightarrow> controller \<Rightarrow> controller" where
  "interaction i c =
     display_section (currentMillis i) (analogReading i)
       (alarm_section (currentMillis i)
         (timeout_section (currentMillis i)
           (button_section (currentMillis i) (laterMillis i) (buttonFell i) (buttonRose i)
             (encoder_section (encoderRead i) c))))"

definition loop :: "loop_input \<Rightarrow> controller \<Rightarrow> controller" where
  "loop i c = interaction i (timekeeping i c)"

text \<open>The passes of \<^verbatim>\<open>loop\<close> over a sequence of inputs.\<close>

fun run :: "controller \<Rightarrow> loop_input list \<Rightarrow> controller" where
  "run c [] = c"
| "run c (i # is) = run (loop i c) is"

section \<open>Start-up\<close>

text \<open>
  The values of the globals and statics before \<^verbatim>\<open>setup\<close>: the initialisers of the
  source, zero where there is none (static storage).
\<close>

definition initial :: controller where
  "initial = \<lparr>clockHour = 0, clockMinute = 0, rtcPresent = True, minuteMillis = 0,
     timerSeconds = 0, previousMillis = 0, displayRefreshMillis = 0,
     displayTimeoutMillis = 0, alarmStartMillis = 0, timerStartSeconds = 0, blink = 0,
     state = CLOCK, buttonPushedMillis = 0, lastLDRReading = 1300, brightness = 0,
     displayOn = False\<rparr>"

text \<open>
  The reading of the RTC: the fields of the \<^verbatim>\<open>DateTime\<close> of RTClib that the sketch
  uses, and the answer of its \<^verbatim>\<open>isValid()\<close>.
\<close>

record DateTime =
  dt_hour :: byte
  dt_minute :: byte
  dt_second :: byte
  dt_isValid :: bool

text \<open>
  \<^verbatim>\<open>loadRTCTime\<close>, given the answer of \<^verbatim>\<open>rtc.begin()\<close>, the reading and
  \<^verbatim>\<open>millis()\<close>. Without the chip the function spins in \<^verbatim>\<open>while (1) delay(10)\<close> and
  never returns: \<open>None\<close>.
\<close>

definition loadRTCTime :: "bool \<Rightarrow> DateTime \<Rightarrow> u32 \<Rightarrow> controller \<Rightarrow> controller option" where
  "loadRTCTime rtc_begin now ms c =
     (if \<not> rtc_begin then None
      else if \<not> rtcPresent c then Some c
      else if \<not> dt_isValid now then Some (c\<lparr>rtcPresent := False\<rparr>)
      else Some (c\<lparr>clockHour := dt_hour now, clockMinute := dt_minute now,
                   minuteMillis := ms - 1000 * ucast (dt_second now)\<rparr>))"

text \<open>\<^verbatim>\<open>setup\<close>: the clock is loaded into the initial state.\<close>

definition setup_sketch :: "bool \<Rightarrow> DateTime \<Rightarrow> u32 \<Rightarrow> controller option" where
  "setup_sketch rtc_begin now ms = loadRTCTime rtc_begin now ms initial"

section \<open>Vocabulary of the properties\<close>

text \<open>The range of the timer and of the remembered start value.\<close>

definition timer_in_range :: "controller \<Rightarrow> bool" where
  "timer_in_range c \<longleftrightarrow> timerSeconds c \<le> 5999 \<and> timerStartSeconds c \<le> 5999"

text \<open>
  The table of the specification, read the way the specification words it: on the
  current value of the timer alone. It is compared with \<open>stepSize\<close> below.
\<close>

definition spec_step_table :: "u16 \<Rightarrow> byte" where
  "spec_step_table ts =
     (if ts > 360 then 60 else if ts > 180 then 30 else if ts > 60 then 15
      else if ts = 0 then 10 else 5)"

text \<open>A valid wall-clock value.\<close>

definition clock_valid :: "controller \<Rightarrow> bool" where
  "clock_valid c \<longleftrightarrow> clockHour c \<le> 23 \<and> clockMinute c \<le> 59"

text \<open>
  A pass of the loop in which the user neither turns the dial up by a step nor releases
  the button.
\<close>

definition undisturbed :: "loop_input \<Rightarrow> bool" where
  "undisturbed i \<longleftrightarrow>
     \<not> (ENCODER_PULSES_PER_STEP \<le>s abs_int (encoderRead i) \<and> 0 <s encoderRead i) \<and>
     \<not> buttonRose i"


definition holding :: "u32 \<Rightarrow> loop_input \<Rightarrow> bool" where
  "holding t i \<longleftrightarrow>
     \<not> buttonFell i \<and> \<not> buttonRose i \<and> \<not> LONG_PUSH_INTERVAL < currentMillis i - t"


text \<open>
  Sample data: a valid reading of the RTC and the state it starts, states in the timer
  modes, and passes of the loop.
\<close>

definition half_past_noon :: DateTime where
  "half_past_noon = \<lparr>dt_hour = 12, dt_minute = 30, dt_second = 0, dt_isValid = True\<rparr>"

definition before_midnight :: DateTime where
  "before_midnight = \<lparr>dt_hour = 23, dt_minute = 59, dt_second = 0, dt_isValid = True\<rparr>"

definition late :: controller where
  "late = initial\<lparr>clockHour := 23, clockMinute := 59\<rparr>"

definition started :: controller where
  "started = initial\<lparr>clockHour := 12, clockMinute := 30\<rparr>"

definition counting :: "u16 \<Rightarrow> controller" where
  "counting n = started\<lparr>state := COUNTDOWN, timerSeconds := n, timerStartSeconds := n\<rparr>"

definition setting :: "u16 \<Rightarrow> controller" where
  "setting n = started\<lparr>state := SET_TIMER, timerSeconds := n\<rparr>"

definition ringing :: "u16 \<Rightarrow> controller" where
  "ringing n = started\<lparr>state := ALARM, timerStartSeconds := n\<rparr>"

definition second_tick :: loop_input where
  "second_tick = \<lparr>currentMillis = 1000, encoderRead = 0, buttonFell = False,
     buttonRose = False, laterMillis = 1000, analogReading = 300\<rparr>"

definition idle_at :: "u32 \<Rightarrow> loop_input" where
  "idle_at t = \<lparr>currentMillis = t, encoderRead = 0, buttonFell = False, buttonRose = False,
     laterMillis = t, analogReading = 300\<rparr>"

definition light_at :: "u32 \<Rightarrow> u16 \<Rightarrow> loop_input" where
  "light_at t a = \<lparr>currentMillis = t, encoderRead = 0, buttonFell = False,
     buttonRose = False, laterMillis = t, analogReading = a\<rparr>"

definition press_at :: "u32 \<Rightarrow> loop_input" where
  "press_at t = \<lparr>currentMillis = t, encoderRead = 0, buttonFell = True, buttonRose = False,
     laterMillis = t, analogReading = 300\<rparr>"

definition release_at :: "u32 \<Rightarrow> loop_input" where
  "release_at t = \<lparr>currentMillis = t, encoderRead = 0, buttonFell = False, buttonRose = True,
     laterMillis = t, analogReading = 300\<rparr>"

definition dial_at :: "u32 \<Rightarrow> i16 \<Rightarrow> loop_input" where
  "dial_at t d = \<lparr>currentMillis = t, encoderRead = d, buttonFell = False, buttonRose = False,
     laterMillis = t, analogReading = 300\<rparr>"

text \<open>
  Passes shortly before the 32-bit millisecond counter wraps to 0, 49.7 days after reset:
  the dial sets the timer to 10 s; then a short press starts the countdown and ten ticks
  run it down to the alarm.
\<close>

definition set_ten :: "loop_input list" where
  "set_ten = [dial_at 4294947296 4]"

definition ring_ten :: "loop_input list" where
  "ring_ten = set_ten @ [press_at 4294948296, release_at 4294948396] @
     map idle_at [4294949396, 4294950396, 4294951396, 4294952396, 4294953396,
       4294954396, 4294955396, 4294956396, 4294957396, 4294958396]"

definition dial :: "i16 \<Rightarrow> loop_input" where
  "dial d = \<lparr>currentMillis = 5, encoderRead = d, buttonFell = False, buttonRose = False,
     laterMillis = 5, analogReading = 300\<rparr>"

section \<open>Word arithmetic used below\<close>

lemma u16_lt_6000: "(x :: u16) < 6000 \<Longrightarrow> x \<le> 5999"
  by unat_arith

lemma u16_sub_range: "(x :: u16) \<le> 5999 \<Longrightarrow> y \<le> x \<Longrightarrow> x - y \<le> 5999"
  by unat_arith

lemma u16_pred_range: "(x :: u16) \<le> 5999 \<Longrightarrow> 0 < x \<Longrightarrow> x - 1 \<le> 5999"
  by unat_arith

lemma unat_byte_less: "unat (b :: byte) < 256"
  using unsigned_less [of b, where ?'a = nat] by simp

lemma unat_ucast_byte: "unat (ucast (b :: byte) :: u16) = unat b"
proof -
  have "unat b < 2 ^ 16"
    using unat_byte_less [of b] by simp
  then show ?thesis
    by (simp add: unsigned_ucast_eq take_bit_nat_eq_self)
qed

lemma u16_add_byte_over:
  "(x :: u16) \<le> 5999 \<Longrightarrow> 5999 < unat x + unat (b :: byte) \<Longrightarrow> \<not> x + ucast b < 6000"
proof -
  assume x: "x \<le> 5999" and o: "5999 < unat x + unat b"
  have "unat x \<le> 5999"
    using x by (simp add: word_le_nat_alt)
  then have "unat (x + ucast b) = unat x + unat b"
    using unat_byte_less [of b] by (simp add: unat_word_ariths unat_ucast_byte)
  then show ?thesis
    using o by (simp add: word_less_nat_alt)
qed

section \<open>What each section leaves alone\<close>

lemma clock_section_frame [simp]:
  "state (clock_section now c) = state c"
  "timerSeconds (clock_section now c) = timerSeconds c"
  "timerStartSeconds (clock_section now c) = timerStartSeconds c"
  "buttonPushedMillis (clock_section now c) = buttonPushedMillis c"
  "displayTimeoutMillis (clock_section now c) = displayTimeoutMillis c"
  by (simp_all add: clock_section_def Let_def)

lemma second_section_frame [simp]:
  "timerStartSeconds (second_section now c) = timerStartSeconds c"
  "buttonPushedMillis (second_section now c) = buttonPushedMillis c"
  "displayTimeoutMillis (second_section now c) = displayTimeoutMillis c"
  "clockHour (second_section now c) = clockHour c"
  "clockMinute (second_section now c) = clockMinute c"
  by (simp_all add: second_section_def Let_def split: mode.split)

lemma second_section_other [simp]:
  "state c \<noteq> COUNTDOWN \<Longrightarrow> state (second_section now c) = state c"
  "state c \<noteq> COUNTDOWN \<Longrightarrow> timerSeconds (second_section now c) = timerSeconds c"
  by (simp_all add: second_section_def Let_def split: mode.split)

lemma second_section_at_zero [simp]:
  "timerSeconds c = 0 \<Longrightarrow> state (second_section now c) = state c"
  "timerSeconds c = 0 \<Longrightarrow> timerSeconds (second_section now c) = 0"
  by (simp_all add: second_section_def Let_def split: mode.split)

lemma encoder_section_frame [simp]:
  "timerStartSeconds (encoder_section dir c) = timerStartSeconds c"
  "buttonPushedMillis (encoder_section dir c) = buttonPushedMillis c"
  by (simp_all add: encoder_section_def timer_adjust_def Let_def)

lemma encoder_section_idle [simp]:
  "\<not> ENCODER_PULSES_PER_STEP \<le>s abs_int dir \<Longrightarrow> encoder_section dir c = c"
  by (simp add: encoder_section_def)

lemma encoder_section_clock [simp]:
  "state c \<noteq> SET_HOUR \<Longrightarrow> state c \<noteq> SET_MINUTE \<Longrightarrow> clockHour (encoder_section dir c) = clockHour c"
  "state c \<noteq> SET_HOUR \<Longrightarrow> state c \<noteq> SET_MINUTE \<Longrightarrow> clockMinute (encoder_section dir c) = clockMinute c"
  by (simp_all add: encoder_section_def timer_adjust_def Let_def)

lemma encoder_never_starts:
  "state c \<noteq> COUNTDOWN \<Longrightarrow> state (encoder_section dir c) \<noteq> COUNTDOWN"
  by (simp add: encoder_section_def timer_adjust_def Let_def)

lemma second_never_starts:
  "state c \<noteq> COUNTDOWN \<Longrightarrow> state (second_section now c) \<noteq> COUNTDOWN"
  by simp

lemma timeout_section_frame [simp]:
  "state c \<noteq> SET_TIMER \<Longrightarrow> timeout_section now c = c"
  "buttonPushedMillis (timeout_section now c) = buttonPushedMillis c"
  "clockHour (timeout_section now c) = clockHour c"
  "clockMinute (timeout_section now c) = clockMinute c"
  by (simp_all add: timeout_section_def Let_def)

lemma timeout_never_starts:
  "state (timeout_section now c) = COUNTDOWN \<longleftrightarrow> state c = COUNTDOWN"
  by (simp add: timeout_section_def Let_def)

lemma alarm_section_frame [simp]:
  "state (alarm_section now c) = state c"
  "timerSeconds (alarm_section now c) = timerSeconds c"
  "timerStartSeconds (alarm_section now c) = timerStartSeconds c"
  "buttonPushedMillis (alarm_section now c) = buttonPushedMillis c"
  "displayTimeoutMillis (alarm_section now c) = displayTimeoutMillis c"
  "clockHour (alarm_section now c) = clockHour c"
  "clockMinute (alarm_section now c) = clockMinute c"
  by (simp_all add: alarm_section_def Let_def)

lemma display_section_frame [simp]:
  "state (display_section now a c) = state c"
  "timerSeconds (display_section now a c) = timerSeconds c"
  "timerStartSeconds (display_section now a c) = timerStartSeconds c"
  "buttonPushedMillis (display_section now a c) = buttonPushedMillis c"
  "displayTimeoutMillis (display_section now a c) = displayTimeoutMillis c"
  "clockHour (display_section now a c) = clockHour c"
  "clockMinute (display_section now a c) = clockMinute c"
  by (simp_all add: display_section_def Let_def)

lemma button_section_frame [simp]:
  "clockHour (button_section now later fell rose c) = clockHour c"
  "clockMinute (button_section now later fell rose c) = clockMinute c"
  by (simp_all add: button_section_def long_push_def button_released_def Let_def split: mode.split)

lemma button_section_no_release [simp]:
  "state c \<noteq> SET_TIMER \<Longrightarrow> state c \<noteq> CLOCK \<Longrightarrow>
     state (button_section now later fell False c) = state c"
  "state c \<noteq> SET_TIMER \<Longrightarrow> state c \<noteq> CLOCK \<Longrightarrow>
     timerSeconds (button_section now later fell False c) = timerSeconds c"
  by (auto simp add: button_section_def long_push_def Let_def split: mode.split)

lemma button_starts_positive:
  "state c \<noteq> COUNTDOWN \<Longrightarrow> state (button_section now later fell rose c) = COUNTDOWN \<Longrightarrow>
   0 < timerSeconds (button_section now later fell rose c)"
  by (auto simp add: button_section_def long_push_def button_released_def Let_def
      split: mode.splits if_splits)

section \<open>The timer stays under 100 minutes\<close>

lemma timer_in_range_clock: "timer_in_range c \<Longrightarrow> timer_in_range (clock_section now c)"
  by (simp add: timer_in_range_def)

lemma timer_in_range_second: "timer_in_range c \<Longrightarrow> timer_in_range (second_section now c)"
  unfolding timer_in_range_def second_section_def Let_def
  by (auto split: mode.split intro: u16_pred_range)

lemma timer_in_range_adjust: "timer_in_range c \<Longrightarrow> timer_in_range (timer_adjust dir c)"
  unfolding timer_in_range_def timer_adjust_def Let_def
  by (auto intro: u16_lt_6000 u16_sub_range)

lemma timer_in_range_encoder: "timer_in_range c \<Longrightarrow> timer_in_range (encoder_section dir c)"
  unfolding encoder_section_def
  by (auto simp: timer_in_range_adjust) (simp_all add: timer_in_range_def)

lemma timer_in_range_long_push: "timer_in_range c \<Longrightarrow> timer_in_range (long_push c)"
  by (simp add: timer_in_range_def long_push_def Let_def split: mode.split)

lemma timer_in_range_released: "timer_in_range c \<Longrightarrow> timer_in_range (button_released later c)"
  by (simp add: timer_in_range_def button_released_def Let_def split: mode.split)

lemma timer_in_range_button:
  "timer_in_range c \<Longrightarrow> timer_in_range (button_section now later fell rose c)"
proof -
  assume r: "timer_in_range c"
  have r1: "timer_in_range (c\<lparr>buttonPushedMillis := v\<rparr>)" for v
    using r by (simp add: timer_in_range_def)
  show ?thesis
    unfolding button_section_def Let_def
    using r r1 by (simp add: timer_in_range_long_push timer_in_range_released)
qed

lemma timer_in_range_timeout: "timer_in_range c \<Longrightarrow> timer_in_range (timeout_section now c)"
  by (simp add: timer_in_range_def timeout_section_def Let_def)

lemma timer_in_range_alarm: "timer_in_range c \<Longrightarrow> timer_in_range (alarm_section now c)"
  by (simp add: timer_in_range_def alarm_section_def Let_def)

lemma timer_in_range_display: "timer_in_range c \<Longrightarrow> timer_in_range (display_section now a c)"
  by (simp add: timer_in_range_def display_section_def Let_def)

lemma timer_in_range_loop: "timer_in_range c \<Longrightarrow> timer_in_range (loop i c)"
  unfolding loop_def interaction_def timekeeping_def
  by (intro timer_in_range_display timer_in_range_alarm timer_in_range_timeout
      timer_in_range_button timer_in_range_encoder timer_in_range_second timer_in_range_clock)

lemma timer_in_range_run: "timer_in_range c \<Longrightarrow> timer_in_range (run c is)"
  by (induction "is" arbitrary: c) (simp_all add: timer_in_range_loop)

lemma timer_in_range_setup: "setup_sketch rb now ms = Some c \<Longrightarrow> timer_in_range c"
  by (auto simp: setup_sketch_def loadRTCTime_def initial_def timer_in_range_def split: if_splits)

lemma encoder_dec_at_zero:
  "timerSeconds c = 0 \<Longrightarrow> \<not> 0 <s dir \<Longrightarrow> timerSeconds (encoder_section dir c) = 0"
  by (simp add: encoder_section_def timer_adjust_def Let_def)

lemma encoder_inc_over:
  "timerSeconds c \<le> 5999 \<Longrightarrow> 0 <s dir \<Longrightarrow>
   5999 < unat (timerSeconds c) + unat (inc_step (state c) (timerSeconds c) dir) \<Longrightarrow>
   timerSeconds (encoder_section dir c) = timerSeconds c"
  using u16_add_byte_over [of "timerSeconds c" "inc_step (state c) (timerSeconds c) dir"]
  by (auto simp: encoder_section_def timer_adjust_def Let_def)

text \<open>
  C1. In every state reached from start-up by any sequence of passes of the loop (encoder
  steps, countdown ticks, button events, in any order), \<open>timerSeconds\<close> is at most 5999;
  there, an encoder reading that is not positive leaves a timer of 0 at 0, and a positive
  reading whose increment would take the timer past 5999 leaves the timer as it is.
\<close>

theorem timerSeconds_in_range:
  assumes "setup_sketch rtc_begin now ms = Some c0"
  shows "timerSeconds (run c0 is) \<le> 5999 \<and>
         (timerSeconds (run c0 is) = 0 \<and> \<not> 0 <s dir \<longrightarrow>
            timerSeconds (encoder_section dir (run c0 is)) = 0) \<and>
         (0 <s dir \<and>
          5999 < unat (timerSeconds (run c0 is)) +
                 unat (inc_step (state (run c0 is)) (timerSeconds (run c0 is)) dir) \<longrightarrow>
            timerSeconds (encoder_section dir (run c0 is)) = timerSeconds (run c0 is))"
proof -
  have "timer_in_range (run c0 is)"
    using assms by (intro timer_in_range_run timer_in_range_setup)
  then have r: "timerSeconds (run c0 is) \<le> 5999"
    by (simp add: timer_in_range_def)
  show ?thesis
    using r encoder_dec_at_zero [of "run c0 is" dir] encoder_inc_over [of "run c0 is" dir]
    by blast
qed

theorem timerSeconds_in_range_witness:
  "setup_sketch True half_past_noon 0 = Some started \<and>
   timerSeconds (run started []) = 0 \<and> \<not> 0 <s (- 4 :: i16) \<and>
   timerSeconds (encoder_section (- 4) (run started [])) = 0 \<and>
   0 <s (4 :: i16) \<and>
   5999 < unat (timerSeconds (run started (replicate 118 (dial 4)))) +
          unat (inc_step (state (run started (replicate 118 (dial 4))))
                  (timerSeconds (run started (replicate 118 (dial 4)))) 4) \<and>
   timerSeconds (encoder_section 4 (run started (replicate 118 (dial 4)))) = 5940 \<and>
   timerSeconds (run started (replicate 118 (dial 4))) \<le> 5999"
proof -
  have s: "setup_sketch True half_past_noon 0 = Some started"
    by (simp add: setup_sketch_def loadRTCTime_def half_past_noon_def started_def initial_def)
  have z: "timerSeconds (run started []) = 0"
    by (simp add: started_def initial_def)
  have d: "\<not> 0 <s (- 4 :: i16)" and u: "0 <s (4 :: i16)"
    by (simp_all add: word_sless_alt)
  have t: "timerSeconds (run started (replicate 118 (dial 4))) = 5940"
    by code_simp
  have m: "state (run started (replicate 118 (dial 4))) = SET_TIMER"
    by code_simp
  have "inc_step SET_TIMER 5940 4 = 60"
    by (simp add: inc_step_def stepSize_def)
  then have o: "5999 < unat (timerSeconds (run started (replicate 118 (dial 4)))) +
          unat (inc_step (state (run started (replicate 118 (dial 4))))
                  (timerSeconds (run started (replicate 118 (dial 4)))) 4)"
    by (simp add: t m)
  show ?thesis
    using s z d u t o
      timerSeconds_in_range [OF s, of "[]" "- 4"]
      timerSeconds_in_range [OF s, of "replicate 118 (dial 4)" 4]
    by simp
qed

section \<open>The end of the countdown and the short press\<close>

lemma interaction_starts_positive:
  "state c \<noteq> COUNTDOWN \<Longrightarrow> state (interaction i c) = COUNTDOWN \<Longrightarrow>
   0 < timerSeconds (interaction i c)"
proof -
  assume n: "state c \<noteq> COUNTDOWN" and s: "state (interaction i c) = COUNTDOWN"
  let ?b = "button_section (currentMillis i) (laterMillis i) (buttonFell i) (buttonRose i)
             (encoder_section (encoderRead i) c)"
  have sb: "state ?b = COUNTDOWN"
    using s by (simp add: interaction_def timeout_never_starts)
  then have "timeout_section (currentMillis i) ?b = ?b"
    by simp
  then have "timerSeconds (interaction i c) = timerSeconds ?b"
    by (simp add: interaction_def)
  moreover have "0 < timerSeconds ?b"
    using sb n by (intro button_starts_positive encoder_never_starts)
  ultimately show ?thesis
    by simp
qed

lemma loop_starts_positive:
  "state c \<noteq> COUNTDOWN \<Longrightarrow> state (loop i c) = COUNTDOWN \<Longrightarrow> 0 < timerSeconds (loop i c)"
  unfolding loop_def
  by (rule interaction_starts_positive) (simp_all add: timekeeping_def)

lemma timekeeping_last_second:
  "state c = COUNTDOWN \<Longrightarrow> timerSeconds c = 1 \<Longrightarrow> 1000 \<le> currentMillis i - previousMillis c \<Longrightarrow>
   state (timekeeping i c) = ALARM \<and> timerSeconds (timekeeping i c) = 0"
  by (simp add: timekeeping_def second_section_def clock_section_def Let_def)

lemma timekeeping_zero_is_alarm:
  "state c = COUNTDOWN \<Longrightarrow> timerSeconds c \<noteq> 0 \<Longrightarrow> timerSeconds (timekeeping i c) = 0 \<Longrightarrow>
   state (timekeeping i c) = ALARM"
  by (auto simp add: timekeeping_def second_section_def clock_section_def Let_def split: if_splits)

text \<open>
  C2. In \<^verbatim>\<open>COUNTDOWN\<close>, in a pass where the second has elapsed: if \<open>timerSeconds\<close> is 1,
  the tick leaves it at 0 and the mode at \<^verbatim>\<open>ALARM\<close>, before the encoder is read, and
  the pass does not end in \<^verbatim>\<open>COUNTDOWN\<close> with a timer of 0; and whenever the tick has
  brought a non-zero timer to 0, the mode after it is \<^verbatim>\<open>ALARM\<close>.
\<close>

theorem countdown_end_is_alarm:
  assumes "state c = COUNTDOWN" and "1000 \<le> currentMillis i - previousMillis c"
  shows "(timerSeconds c = 1 \<longrightarrow>
            state (timekeeping i c) = ALARM \<and> timerSeconds (timekeeping i c) = 0 \<and>
            \<not> (state (loop i c) = COUNTDOWN \<and> timerSeconds (loop i c) = 0)) \<and>
         (timerSeconds c \<noteq> 0 \<and> timerSeconds (timekeeping i c) = 0 \<longrightarrow>
            state (timekeeping i c) = ALARM)"
proof -
  have "\<not> (state (loop i c) = COUNTDOWN \<and> timerSeconds (loop i c) = 0)"
    if "timerSeconds c = 1"
  proof -
    have "state (timekeeping i c) \<noteq> COUNTDOWN"
      using timekeeping_last_second [OF assms(1) that assms(2)] by simp
    then show ?thesis
      using interaction_starts_positive [of "timekeeping i c" i] by (auto simp: loop_def)
  qed
  then show ?thesis
    using timekeeping_last_second [OF assms(1) _ assms(2)] timekeeping_zero_is_alarm [OF assms(1)]
    by blast
qed

theorem countdown_end_is_alarm_witness:
  "state (counting 1) = COUNTDOWN \<and>
   1000 \<le> currentMillis second_tick - previousMillis (counting 1) \<and>
   timerSeconds (counting 1) = 1 \<and>
   state (timekeeping second_tick (counting 1)) = ALARM \<and>
   timerSeconds (timekeeping second_tick (counting 1)) = 0 \<and>
   \<not> (state (loop second_tick (counting 1)) = COUNTDOWN \<and>
      timerSeconds (loop second_tick (counting 1)) = 0)"
proof -
  have h: "state (counting 1) = COUNTDOWN"
    "1000 \<le> currentMillis second_tick - previousMillis (counting 1)"
    "timerSeconds (counting 1) = 1"
    by (simp_all add: counting_def started_def initial_def second_tick_def)
  show ?thesis
    using h countdown_end_is_alarm [OF h(1) h(2)] by simp
qed

section \<open>The button: a press and its release\<close>

lemma button_section_idle:
  "\<not> (buttonPushedMillis c \<noteq> 0 \<and> LONG_PUSH_INTERVAL < now - buttonPushedMillis c) \<Longrightarrow>
   button_section now later False False c = c"
  by (auto simp add: button_section_def Let_def)

lemma button_section_pressed:
  "now \<noteq> 0 \<Longrightarrow> button_section now later True False c = c\<lparr>buttonPushedMillis := now\<rparr>"
  by (simp add: button_section_def Let_def LONG_PUSH_INTERVAL_def)

lemma button_section_released:
  "buttonPushedMillis c \<noteq> 0 \<Longrightarrow> \<not> LONG_PUSH_INTERVAL < now - buttonPushedMillis c \<Longrightarrow>
   button_section now later False True c = button_released later c"
  by (simp add: button_section_def Let_def)




lemma timekeeping_frame [simp]:
  "buttonPushedMillis (timekeeping i c) = buttonPushedMillis c"
  "displayTimeoutMillis (timekeeping i c) = displayTimeoutMillis c"
  "timerStartSeconds (timekeeping i c) = timerStartSeconds c"
  "state c \<noteq> COUNTDOWN \<Longrightarrow> state (timekeeping i c) = state c"
  "state c \<noteq> COUNTDOWN \<Longrightarrow> timerSeconds (timekeeping i c) = timerSeconds c"
  by (simp_all add: timekeeping_def)


text \<open>The button of a pass is recorded when it falls, and stays recorded while held.\<close>

lemma press_recorded:
  assumes "buttonFell p" and "\<not> buttonRose p" and "currentMillis p \<noteq> 0"
  shows "buttonPushedMillis (loop p c) = currentMillis p"
  using assms by (simp add: loop_def interaction_def button_section_pressed)

lemma hold_keeps_press:
  assumes "buttonPushedMillis c = t" and "holding t j"
  shows "buttonPushedMillis (loop j c) = t"
proof -
  have "button_section (currentMillis j) (laterMillis j) False False
          (encoder_section (encoderRead j) (timekeeping j c)) =
        encoder_section (encoderRead j) (timekeeping j c)"
    using assms by (intro button_section_idle) (simp add: holding_def)
  then show ?thesis
    using assms by (simp add: loop_def interaction_def holding_def)
qed

lemma run_holding:
  "buttonPushedMillis c = t \<Longrightarrow> \<forall>j \<in> set js. holding t j \<Longrightarrow> buttonPushedMillis (run c js) = t"
proof (induction js arbitrary: c)
  case Nil
  then show ?case by simp
next
  case (Cons j js)
  have "buttonPushedMillis (loop j c) = t"
    using Cons.prems by (intro hold_keeps_press) simp_all
  then show ?case
    using Cons.IH [of "loop j c"] Cons.prems(2) by simp
qed

lemma short_press_recorded:
  assumes "buttonFell p" and "\<not> buttonRose p" and "currentMillis p \<noteq> 0"
    and "\<forall>j \<in> set js. holding (currentMillis p) j"
  shows "buttonPushedMillis (run (loop p c) js) = currentMillis p"
  using press_recorded [OF assms(1-3)] assms(4) by (intro run_holding)

text \<open>The pass that sees the release of a recorded short press, with no step of the dial.\<close>

lemma release_pass:
  assumes "buttonPushedMillis c \<noteq> 0"
    and "\<not> LONG_PUSH_INTERVAL < currentMillis r - buttonPushedMillis c"
    and "buttonRose r" and "\<not> buttonFell r"
    and "\<not> ENCODER_PULSES_PER_STEP \<le>s abs_int (encoderRead r)"
  shows "loop r c =
     display_section (currentMillis r) (analogReading r)
       (alarm_section (currentMillis r)
         (timeout_section (currentMillis r) (button_released (laterMillis r) (timekeeping r c))))"
proof -
  have "button_section (currentMillis r) (laterMillis r) False True (timekeeping r c) =
      button_released (laterMillis r) (timekeeping r c)"
    using assms(1,2) by (intro button_section_released) simp_all
  then show ?thesis
    using assms by (simp add: loop_def interaction_def)
qed

lemma release_pass_SET_TIMER:
  assumes "state c = SET_TIMER" and "buttonPushedMillis c \<noteq> 0"
    and "\<not> LONG_PUSH_INTERVAL < currentMillis r - buttonPushedMillis c"
    and "buttonRose r" and "\<not> buttonFell r"
    and "\<not> ENCODER_PULSES_PER_STEP \<le>s abs_int (encoderRead r)"
  shows "state (loop r c) = (if 0 < timerSeconds c then COUNTDOWN else CLOCK)"
    and "timerSeconds (loop r c) = timerSeconds c"
    and "0 < timerSeconds c \<Longrightarrow> timerStartSeconds c \<le> timerSeconds c \<Longrightarrow>
         timerStartSeconds (loop r c) = timerSeconds c"
  using assms(1) by (auto simp add: release_pass [OF assms(2-6)] button_released_def Let_def)

lemma release_pass_ALARM:
  assumes "state c = ALARM" and "buttonPushedMillis c \<noteq> 0"
    and "\<not> LONG_PUSH_INTERVAL < currentMillis r - buttonPushedMillis c"
    and "buttonRose r" and "\<not> buttonFell r"
    and "\<not> ENCODER_PULSES_PER_STEP \<le>s abs_int (encoderRead r)"
  shows "state (loop r c) = SET_TIMER"
    and "timerSeconds (loop r c) = timerStartSeconds c"
    and "timerStartSeconds (loop r c) = timerStartSeconds c"
  using assms(1)
  by (simp_all add: release_pass [OF assms(2-6)] button_released_def Let_def
      timeout_section_def TIMER_DISPLAY_TIMEOUT_def)

text \<open>
  A short press seen at any reading of \<^verbatim>\<open>millis()\<close> other than 0, held over any passes
  for no more than the long-push interval and released in a pass without a step of the
  dial: in \<^verbatim>\<open>SET_TIMER\<close> the release starts the countdown exactly when the timer is
  positive, goes to \<^verbatim>\<open>CLOCK\<close> otherwise, and records a timer at least as large as
  \<open>timerStartSeconds\<close> as the new start value; in \<^verbatim>\<open>ALARM\<close> it goes to \<^verbatim>\<open>SET_TIMER\<close>
  with the timer restored from \<open>timerStartSeconds\<close>.
\<close>

lemma short_press_in_SET_TIMER:
  assumes "buttonFell q" and "\<not> buttonRose q" and "currentMillis q \<noteq> 0"
    and "\<forall>h \<in> set hs. holding (currentMillis q) h"
    and "state (run (loop q c) hs) = SET_TIMER"
    and "buttonRose r" and "\<not> buttonFell r"
    and "\<not> LONG_PUSH_INTERVAL < currentMillis r - currentMillis q"
    and "\<not> ENCODER_PULSES_PER_STEP \<le>s abs_int (encoderRead r)"
  shows "state (loop r (run (loop q c) hs)) =
           (if 0 < timerSeconds (run (loop q c) hs) then COUNTDOWN else CLOCK) \<and>
         timerSeconds (loop r (run (loop q c) hs)) = timerSeconds (run (loop q c) hs) \<and>
         (0 < timerSeconds (run (loop q c) hs) \<and>
          timerStartSeconds (run (loop q c) hs) \<le> timerSeconds (run (loop q c) hs) \<longrightarrow>
            timerStartSeconds (loop r (run (loop q c) hs)) = timerSeconds (run (loop q c) hs))"
proof -
  let ?c = "run (loop q c) hs"
  have b: "buttonPushedMillis ?c = currentMillis q"
    using assms(1-4) by (rule short_press_recorded)
  have n: "buttonPushedMillis ?c \<noteq> 0"
    and l: "\<not> LONG_PUSH_INTERVAL < currentMillis r - buttonPushedMillis ?c"
    using b assms(3,8) by simp_all
  show ?thesis
    using release_pass_SET_TIMER [OF assms(5) n l assms(6,7,9)] by simp
qed

lemma short_press_in_ALARM:
  assumes "buttonFell q" and "\<not> buttonRose q" and "currentMillis q \<noteq> 0"
    and "\<forall>h \<in> set hs. holding (currentMillis q) h"
    and "state (run (loop q c) hs) = ALARM"
    and "buttonRose r" and "\<not> buttonFell r"
    and "\<not> LONG_PUSH_INTERVAL < currentMillis r - currentMillis q"
    and "\<not> ENCODER_PULSES_PER_STEP \<le>s abs_int (encoderRead r)"
  shows "state (loop r (run (loop q c) hs)) = SET_TIMER \<and>
         timerSeconds (loop r (run (loop q c) hs)) = timerStartSeconds (run (loop q c) hs) \<and>
         timerStartSeconds (loop r (run (loop q c) hs)) = timerStartSeconds (run (loop q c) hs)"
proof -
  let ?c = "run (loop q c) hs"
  have b: "buttonPushedMillis ?c = currentMillis q"
    using assms(1-4) by (rule short_press_recorded)
  have n: "buttonPushedMillis ?c \<noteq> 0"
    and l: "\<not> LONG_PUSH_INTERVAL < currentMillis r - buttonPushedMillis ?c"
    using b assms(3,8) by simp_all
  show ?thesis
    using release_pass_ALARM [OF assms(5) n l assms(6,7,9)] by simp
qed

text \<open>
  C3. The press is stored as its time stamp in \<open>buttonPushedMillis\<close>, and the release
  handler reads the value 0 as `no press'. A press seen in the pass where \<^verbatim>\<open>millis()\<close>
  reads 0 is therefore not recorded and its release is dropped: with the timer dialled
  to 10 s in \<^verbatim>\<open>SET_TIMER\<close>, the short press leaves the mode \<^verbatim>\<open>SET_TIMER\<close> where the
  countdown should start. The same press seen at 7 ms starts it.
\<close>

theorem press_at_zero_is_dropped:
  "state (run started set_ten) = SET_TIMER \<and> timerSeconds (run started set_ten) = 10 \<and>
   state (run started (set_ten @ [press_at 0, release_at 50])) = SET_TIMER \<and>
   state (run started (set_ten @ [press_at 7, release_at 50])) = COUNTDOWN"
  by code_simp

text \<open>
  C5. The same stamp of 0 leaves the alarm ringing: after a countdown from 10 s has ended
  in \<^verbatim>\<open>ALARM\<close>, a short press seen in the pass where \<^verbatim>\<open>millis()\<close> reads 0 is dropped
  at its release, the mode stays \<^verbatim>\<open>ALARM\<close> and the timer stays 0 where it should be
  restored to the 10 s of \<open>timerStartSeconds\<close>. The same press seen at 7 ms dismisses the
  alarm and restores the 10 s.
\<close>

theorem press_at_zero_leaves_alarm:
  "state (run started ring_ten) = ALARM \<and> timerStartSeconds (run started ring_ten) = 10 \<and>
   state (run started (ring_ten @ [press_at 0, release_at 50])) = ALARM \<and>
   timerSeconds (run started (ring_ten @ [press_at 0, release_at 50])) = 0 \<and>
   state (run started (ring_ten @ [press_at 7, release_at 50])) = SET_TIMER \<and>
   timerSeconds (run started (ring_ten @ [press_at 7, release_at 50])) = 10"
  by code_simp

section \<open>The timeout of the timer display\<close>














section \<open>The encoder in \<^verbatim>\<open>CLOCK\<close>\<close>

text \<open>
  C9 (as amended). In \<^verbatim>\<open>CLOCK\<close> an encoder reading never changes \<open>clockHour\<close> or
  \<open>clockMinute\<close>; a reading that is not positive leaves the mode \<^verbatim>\<open>CLOCK\<close> and a timer
  of 0 at 0; a step with a positive reading sets the mode to \<^verbatim>\<open>SET_TIMER\<close> and adds the
  snapped step to \<open>timerSeconds\<close> when the sum stays below 6000.
\<close>

theorem encoder_in_CLOCK:
  assumes "state c = CLOCK"
  shows "clockHour (encoder_section dir c) = clockHour c \<and>
         clockMinute (encoder_section dir c) = clockMinute c \<and>
         (\<not> 0 <s dir \<longrightarrow> state (encoder_section dir c) = CLOCK \<and>
            (timerSeconds c = 0 \<longrightarrow> timerSeconds (encoder_section dir c) = 0)) \<and>
         (ENCODER_PULSES_PER_STEP \<le>s abs_int dir \<and> 0 <s dir \<longrightarrow>
            state (encoder_section dir c) = SET_TIMER \<and>
            timerSeconds (encoder_section dir c) =
              (if timerSeconds c + ucast (inc_step CLOCK (timerSeconds c) dir) < 6000
               then timerSeconds c + ucast (inc_step CLOCK (timerSeconds c) dir)
               else timerSeconds c))"
  using assms encoder_dec_at_zero [of c dir]
  by (simp add: encoder_section_def timer_adjust_def Let_def)

theorem encoder_in_CLOCK_witness:
  "state started = CLOCK \<and> \<not> 0 <s (- 4 :: i16) \<and> timerSeconds started = 0 \<and>
   state (encoder_section (- 4) started) = CLOCK \<and>
   timerSeconds (encoder_section (- 4) started) = 0 \<and>
   ENCODER_PULSES_PER_STEP \<le>s abs_int 4 \<and> 0 <s (4 :: i16) \<and>
   state (encoder_section 4 started) = SET_TIMER \<and>
   timerSeconds (encoder_section 4 started) = 10 \<and>
   clockHour (encoder_section 4 started) = 12 \<and> clockMinute (encoder_section 4 started) = 30"
proof -
  have a: "state started = CLOCK" and z: "timerSeconds started = 0"
    and h: "clockHour started = 12" "clockMinute started = 30"
    by (simp_all add: started_def initial_def)
  have d: "\<not> 0 <s (- 4 :: i16)" and u: "0 <s (4 :: i16)"
    and e: "ENCODER_PULSES_PER_STEP \<le>s abs_int 4"
    by (simp_all add: word_sless_alt word_sle_eq ENCODER_PULSES_PER_STEP_def abs_int_def)
  have s: "timerSeconds started + ucast (inc_step CLOCK (timerSeconds started) 4) = 10"
    by code_simp
  show ?thesis
    using a z h d u e s encoder_in_CLOCK [OF a, of "- 4"] encoder_in_CLOCK [OF a, of 4]
    by simp
qed

text \<open>
  The claim as it was stated fails: from the initial state, in \<^verbatim>\<open>CLOCK\<close>, one step of the
  dial upwards changes the mode and the timer.
\<close>

theorem encoder_in_CLOCK_changes:
  "state initial = CLOCK \<and>
   \<not> (state (encoder_section 4 initial) = state initial \<and>
      timerSeconds (encoder_section 4 initial) = timerSeconds initial \<and>
      clockHour (encoder_section 4 initial) = clockHour initial \<and>
      clockMinute (encoder_section 4 initial) = clockMinute initial)"
  by code_simp


section \<open>A countdown dialled down to zero\<close>

lemma encoder_at_zero_counting:
  "state c = COUNTDOWN \<Longrightarrow> timerSeconds c = 0 \<Longrightarrow>
   \<not> (ENCODER_PULSES_PER_STEP \<le>s abs_int dir \<and> 0 <s dir) \<Longrightarrow>
   state (encoder_section dir c) = COUNTDOWN \<and> timerSeconds (encoder_section dir c) = 0"
  by (auto simp add: encoder_section_def timer_adjust_def Let_def)

lemma after_encoder_counting:
  assumes "state c = COUNTDOWN" and "\<not> rose"
  shows "state (display_section now a (alarm_section now (timeout_section now
           (button_section now later fell rose c)))) = COUNTDOWN \<and>
         timerSeconds (display_section now a (alarm_section now (timeout_section now
           (button_section now later fell rose c)))) = timerSeconds c"
proof -
  have b: "state (button_section now later fell rose c) = COUNTDOWN"
    "timerSeconds (button_section now later fell rose c) = timerSeconds c"
    using assms by simp_all
  then have "timeout_section now (button_section now later fell rose c) =
      button_section now later fell rose c"
    by simp
  then show ?thesis
    using b by simp
qed

lemma interaction_undisturbed:
  assumes "state c = COUNTDOWN" and "timerSeconds c = 0" and "undisturbed i"
  shows "state (interaction i c) = COUNTDOWN \<and> timerSeconds (interaction i c) = 0"
proof -
  have e: "state (encoder_section (encoderRead i) c) = COUNTDOWN \<and>
      timerSeconds (encoder_section (encoderRead i) c) = 0"
    using assms by (intro encoder_at_zero_counting) (simp_all add: undisturbed_def)
  have "\<not> buttonRose i"
    using assms(3) by (simp add: undisturbed_def)
  then show ?thesis
    unfolding interaction_def
    using after_encoder_counting [of "encoder_section (encoderRead i) c" "buttonRose i"] e
    by simp
qed

lemma loop_undisturbed:
  assumes "state c = COUNTDOWN" and "timerSeconds c = 0" and "undisturbed i"
  shows "state (loop i c) = COUNTDOWN \<and> timerSeconds (loop i c) = 0"
  unfolding loop_def
  using assms by (intro interaction_undisturbed) (simp_all add: timekeeping_def)

lemma run_undisturbed:
  "state c = COUNTDOWN \<Longrightarrow> timerSeconds c = 0 \<Longrightarrow> \<forall>j \<in> set js. undisturbed j \<Longrightarrow>
   state (run c js) = COUNTDOWN \<and> timerSeconds (run c js) = 0"
proof (induction js arbitrary: c)
  case Nil
  then show ?case by simp
next
  case (Cons j js)
  have "state (loop j c) = COUNTDOWN \<and> timerSeconds (loop j c) = 0"
    using Cons.prems by (intro loop_undisturbed) simp_all
  then show ?case
    using Cons.IH [of "loop j c"] Cons.prems(3) by simp
qed

lemma encoder_step_equals_timer:
  assumes "state c = COUNTDOWN" and "ENCODER_PULSES_PER_STEP \<le>s abs_int dir" and "\<not> 0 <s dir"
    and "ucast (stepSize (timerSeconds c) dir) = timerSeconds c"
  shows "state (encoder_section dir c) = COUNTDOWN \<and> timerSeconds (encoder_section dir c) = 0"
  using assms by (simp add: encoder_section_def timer_adjust_def dec_step_def Let_def)

text \<open>
  C10. In a pass of the loop where, when the encoder is read, the mode is \<^verbatim>\<open>COUNTDOWN\<close>,
  the dial has gone down by a step and the step equals \<open>timerSeconds\<close>, the encoder
  section leaves the timer at 0 and the mode at \<^verbatim>\<open>COUNTDOWN\<close>; if the button is not
  released in that pass, then after it and after every further pass in which the dial
  does not go up by a step and the button is not released, whatever time has gone by,
  the mode is still \<^verbatim>\<open>COUNTDOWN\<close> and the timer still 0: no tick decrements it and
  \<^verbatim>\<open>ALARM\<close> is not entered.
\<close>

theorem countdown_dialled_to_zero:
  assumes "state (timekeeping i c) = COUNTDOWN"
    and "ENCODER_PULSES_PER_STEP \<le>s abs_int (encoderRead i)" and "\<not> 0 <s encoderRead i"
    and "ucast (stepSize (timerSeconds (timekeeping i c)) (encoderRead i)) =
           timerSeconds (timekeeping i c)"
    and "\<not> buttonRose i"
    and "\<forall>j \<in> set js. undisturbed j"
  shows "state (encoder_section (encoderRead i) (timekeeping i c)) = COUNTDOWN \<and>
         timerSeconds (encoder_section (encoderRead i) (timekeeping i c)) = 0 \<and>
         (\<forall>n. state (run (loop i c) (take n js)) = COUNTDOWN \<and>
              timerSeconds (run (loop i c) (take n js)) = 0)"
proof -
  let ?e = "encoder_section (encoderRead i) (timekeeping i c)"
  have e: "state ?e = COUNTDOWN \<and> timerSeconds ?e = 0"
    using assms(1-4) by (intro encoder_step_equals_timer)
  have l: "state (loop i c) = COUNTDOWN \<and> timerSeconds (loop i c) = 0"
    unfolding loop_def interaction_def
    using after_encoder_counting [of ?e "buttonRose i"] e assms(5) by simp
  have "state (run (loop i c) (take n js)) = COUNTDOWN \<and>
        timerSeconds (run (loop i c) (take n js)) = 0" for n
    using l assms(6) by (intro run_undisturbed) (auto dest: in_set_takeD)
  then show ?thesis
    using e by blast
qed

theorem countdown_dialled_to_zero_witness:
  "state (timekeeping (dial (- 4)) (counting 5)) = COUNTDOWN \<and>
   ENCODER_PULSES_PER_STEP \<le>s abs_int (encoderRead (dial (- 4))) \<and>
   \<not> 0 <s encoderRead (dial (- 4)) \<and>
   ucast (stepSize (timerSeconds (timekeeping (dial (- 4)) (counting 5))) (encoderRead (dial (- 4)))) =
     timerSeconds (timekeeping (dial (- 4)) (counting 5)) \<and>
   timerSeconds (timekeeping (dial (- 4)) (counting 5)) = 5 \<and>
   \<not> buttonRose (dial (- 4)) \<and>
   undisturbed (idle_at 1000) \<and> undisturbed (idle_at 2000) \<and> undisturbed (idle_at 3000) \<and>
   state (run (loop (dial (- 4)) (counting 5)) [idle_at 1000, idle_at 2000, idle_at 3000]) =
     COUNTDOWN \<and>
   timerSeconds (run (loop (dial (- 4)) (counting 5)) [idle_at 1000, idle_at 2000, idle_at 3000]) = 0"
proof -
  have a: "state (timekeeping (dial (- 4)) (counting 5)) = COUNTDOWN"
    and b: "ENCODER_PULSES_PER_STEP \<le>s abs_int (encoderRead (dial (- 4)))"
    and d: "\<not> 0 <s encoderRead (dial (- 4))"
    and e: "ucast (stepSize (timerSeconds (timekeeping (dial (- 4)) (counting 5)))
              (encoderRead (dial (- 4)))) = timerSeconds (timekeeping (dial (- 4)) (counting 5))"
    and v: "timerSeconds (timekeeping (dial (- 4)) (counting 5)) = 5"
    and r: "\<not> buttonRose (dial (- 4))"
    by code_simp+
  have q: "\<forall>j \<in> set [idle_at 1000, idle_at 2000, idle_at 3000]. undisturbed j"
    by (simp add: undisturbed_def idle_at_def)
  have "state (run (loop (dial (- 4)) (counting 5))
                (take 3 [idle_at 1000, idle_at 2000, idle_at 3000])) = COUNTDOWN \<and>
        timerSeconds (run (loop (dial (- 4)) (counting 5))
                (take 3 [idle_at 1000, idle_at 2000, idle_at 3000])) = 0"
    using countdown_dialled_to_zero [OF a b d e r q] by blast
  then show ?thesis
    using a b d e v r q by simp
qed

section \<open>The clock stays a wall-clock value\<close>

lemma byte_hour_up: "(h :: byte) < 23 \<Longrightarrow> h + 1 \<le> 23"
  by unat_arith

lemma byte_hour_down: "(h :: byte) \<le> 23 \<Longrightarrow> 0 < h \<Longrightarrow> h - 1 \<le> 23"
  by unat_arith

lemma byte_minute_up: "(m :: byte) < 59 \<Longrightarrow> m + 1 \<le> 59"
  by unat_arith

lemma byte_minute_down: "(m :: byte) \<le> 59 \<Longrightarrow> 0 < m \<Longrightarrow> m - 1 \<le> 59"
  by unat_arith

lemma clock_valid_clock: "clock_valid c \<Longrightarrow> clock_valid (clock_section now c)"
  by (simp add: clock_valid_def clock_section_def Let_def byte_hour_up byte_minute_up)

lemma clock_valid_encoder: "clock_valid c \<Longrightarrow> clock_valid (encoder_section dir c)"
  by (simp add: clock_valid_def encoder_section_def timer_adjust_def Let_def
      byte_hour_up byte_minute_up byte_hour_down byte_minute_down)

lemma clock_valid_loop: "clock_valid c \<Longrightarrow> clock_valid (loop i c)"
proof -
  assume v: "clock_valid c"
  have "clock_valid (encoder_section (encoderRead i) (timekeeping i c))"
  proof (rule clock_valid_encoder)
    show "clock_valid (timekeeping i c)"
      using clock_valid_clock [OF v, of "currentMillis i"]
      by (simp add: clock_valid_def timekeeping_def)
  qed
  then show ?thesis
    by (simp add: clock_valid_def loop_def interaction_def)
qed

lemma clock_valid_run: "clock_valid c \<Longrightarrow> clock_valid (run c is)"
  by (induction "is" arbitrary: c) (simp_all add: clock_valid_loop)

lemma clock_valid_load:
  "dt_isValid now \<longrightarrow> dt_hour now \<le> 23 \<and> dt_minute now \<le> 59 \<Longrightarrow> clock_valid c \<Longrightarrow>
   loadRTCTime rb now ms c = Some c' \<Longrightarrow> clock_valid c'"
  by (auto simp add: loadRTCTime_def clock_valid_def split: if_splits)

lemma clock_valid_initial: "clock_valid initial"
  by (simp add: clock_valid_def initial_def)

lemma minute_rollover:
  "state c \<noteq> SET_HOUR \<Longrightarrow> state c \<noteq> SET_MINUTE \<Longrightarrow> MINUTE_MILIS < now - minuteMillis c \<Longrightarrow>
   clockMinute (clock_section now c) = (if clockMinute c < 59 then clockMinute c + 1 else 0) \<and>
   clockHour (clock_section now c) =
     (if clockMinute c < 59 then clockHour c else if clockHour c < 23 then clockHour c + 1 else 0)"
  by (simp add: clock_section_def Let_def)

lemma hour_edit:
  "state c = SET_HOUR \<Longrightarrow> ENCODER_PULSES_PER_STEP \<le>s abs_int dir \<Longrightarrow>
   clockHour (encoder_section dir c) =
     (if 0 <s dir then (if clockHour c < 23 then clockHour c + 1 else 0)
      else (if 0 < clockHour c then clockHour c - 1 else 23)) \<and>
   clockMinute (encoder_section dir c) = clockMinute c"
  by (simp add: encoder_section_def)

lemma minute_edit:
  "state c = SET_MINUTE \<Longrightarrow> ENCODER_PULSES_PER_STEP \<le>s abs_int dir \<Longrightarrow>
   clockMinute (encoder_section dir c) =
     (if 0 <s dir then (if clockMinute c < 59 then clockMinute c + 1 else 0)
      else (if 0 < clockMinute c then clockMinute c - 1 else 59)) \<and>
   clockHour (encoder_section dir c) = clockHour c"
  by (simp add: encoder_section_def)

text \<open>
  C6. RTClib's \<^verbatim>\<open>isValid()\<close> accepts a reading only if it is a proper time of day
  (hour at most 23, minute at most 59). Under that contract of the library, in every
  state reached from start-up by any sequence of passes of the loop (minute rollovers,
  encoder edits in \<^verbatim>\<open>SET_HOUR\<close> and \<^verbatim>\<open>SET_MINUTE\<close>, anything else), \<open>clockHour\<close> is at
  most 23 and \<open>clockMinute\<close> at most 59; there, a minute rollover from minute 59 gives
  minute 0 and the next hour, 0 after 23, and an upward step of the dial in
  \<^verbatim>\<open>SET_HOUR\<close> takes hour 23 to 0.
\<close>

theorem clock_always_valid:
  assumes "dt_isValid now \<longrightarrow> dt_hour now \<le> 23 \<and> dt_minute now \<le> 59"
      and "setup_sketch rtc_begin now ms = Some c0"
  shows "clockHour (run c0 is) \<le> 23 \<and> clockMinute (run c0 is) \<le> 59 \<and>
         (state (run c0 is) \<noteq> SET_HOUR \<and> state (run c0 is) \<noteq> SET_MINUTE \<and>
          MINUTE_MILIS < t - minuteMillis (run c0 is) \<and> clockMinute (run c0 is) = 59 \<longrightarrow>
            clockMinute (clock_section t (run c0 is)) = 0 \<and>
            (clockHour (run c0 is) < 23 \<longrightarrow>
               clockHour (clock_section t (run c0 is)) = clockHour (run c0 is) + 1) \<and>
            (clockHour (run c0 is) = 23 \<longrightarrow> clockHour (clock_section t (run c0 is)) = 0)) \<and>
         (state (run c0 is) = SET_HOUR \<and> ENCODER_PULSES_PER_STEP \<le>s abs_int dir \<and> 0 <s dir \<and>
          clockHour (run c0 is) = 23 \<longrightarrow> clockHour (encoder_section dir (run c0 is)) = 0)"
proof -
  have "clock_valid c0"
    using clock_valid_load [OF assms(1) clock_valid_initial] assms(2)
    by (simp add: setup_sketch_def)
  then have "clock_valid (run c0 is)"
    by (rule clock_valid_run)
  then have v: "clockHour (run c0 is) \<le> 23 \<and> clockMinute (run c0 is) \<le> 59"
    by (simp add: clock_valid_def)
  show ?thesis
    using v minute_rollover [of "run c0 is" t] hour_edit [of "run c0 is" dir]
    by auto
qed

theorem clock_always_valid_witness:
  "dt_isValid before_midnight \<and>
   dt_hour before_midnight \<le> 23 \<and> dt_minute before_midnight \<le> 59 \<and>
   setup_sketch True before_midnight 0 = Some late \<and>
   state (run late []) \<noteq> SET_HOUR \<and> state (run late []) \<noteq> SET_MINUTE \<and>
   MINUTE_MILIS < 60000 - minuteMillis (run late []) \<and>
   clockMinute (run late []) = 59 \<and> clockHour (run late []) = 23 \<and>
   clockMinute (clock_section 60000 (run late [])) = 0 \<and>
   clockHour (clock_section 60000 (run late [])) = 0"
proof -
  have g: "dt_isValid before_midnight \<and>
      dt_hour before_midnight \<le> 23 \<and> dt_minute before_midnight \<le> 59"
    by (simp add: before_midnight_def)
  then have h: "dt_isValid before_midnight \<longrightarrow>
      dt_hour before_midnight \<le> 23 \<and> dt_minute before_midnight \<le> 59"
    by simp
  have s: "setup_sketch True before_midnight 0 = Some late"
    by (simp add: setup_sketch_def loadRTCTime_def before_midnight_def late_def initial_def)
  have p: "state (run late []) \<noteq> SET_HOUR" "state (run late []) \<noteq> SET_MINUTE"
    "MINUTE_MILIS < 60000 - minuteMillis (run late [])"
    "clockMinute (run late []) = 59" "clockHour (run late []) = 23"
    by (simp_all add: late_def initial_def MINUTE_MILIS_def)
  show ?thesis
    using g s p clock_always_valid [OF h s, of "[]" 60000] by simp
qed

section \<open>The step of the dial\<close>

lemma uint_add_signed: "uint (ts + dir :: 16 word) = (uint ts + sint dir) mod 65536"
proof -
  have "ts + dir = word_of_int (uint ts + sint dir)"
    by simp
  then have "uint (ts + dir) = take_bit 16 (uint ts + sint dir)"
    by (simp only: uint_word_of_int_eq) simp
  then show ?thesis
    by (simp add: take_bit_eq_mod)
qed

lemma stepSize_table:
  "stepSize ts dir =
     (let v = (uint ts + sint dir) mod 65536 in
      if 360 < v then 60 else if 180 < v then 30 else if 60 < v then 15
      else if ts = 0 then 10 else 5)"
  by (simp add: stepSize_def Let_def word_less_alt uint_add_signed [symmetric])

lemma stepSize_cases: "stepSize ts dir \<in> {60, 30, 15, 10, 5}"
  by (simp add: stepSize_def)

lemma stepSize_pos: "0 < unat (stepSize ts dir)"
  using stepSize_cases [of ts dir] by auto

lemma unat_snap:
  assumes "0 < unat (k :: byte)"
  shows "unat (ucast ((ucast k :: u16) - ts mod ucast k) :: byte) = unat k - unat ts mod unat k"
proof -
  let ?K = "ucast k :: u16"
  have K: "unat ?K = unat k"
    by (rule unat_ucast_byte)
  have m: "unat (ts mod ?K) = unat ts mod unat k"
    by (simp add: unat_mod K)
  have lt: "unat ts mod unat k < unat k"
    using assms by simp
  have "ts mod ?K \<le> ?K"
    using lt by (simp add: word_le_nat_alt m K)
  then have d: "unat (?K - ts mod ?K) = unat k - unat ts mod unat k"
    by (simp add: unat_sub m K)
  have "unat k - unat ts mod unat k < 2 ^ 8"
    using unat_byte_less [of k] by simp
  then show ?thesis
    by (simp add: unsigned_ucast_eq d take_bit_nat_eq_self)
qed

lemma snap_multiple: "0 < (k :: nat) \<Longrightarrow> (a + (k - a mod k)) mod k = 0"
proof -
  assume k: "0 < k"
  have "a mod k \<le> k"
    using k by (simp add: less_imp_le)
  then have "a + (k - a mod k) = (a - a mod k) + k"
    using mod_less_eq_dividend [of a k] by simp
  also have "\<dots> = k * (a div k) + k"
    by (simp add: minus_mod_eq_mult_div)
  finally show ?thesis
    by simp
qed

lemma unat_add_byte:
  "(x :: u16) \<le> 5999 \<Longrightarrow> unat (x + ucast (b :: byte)) = unat x + unat b"
proof -
  assume "x \<le> 5999"
  then have "unat x \<le> 5999"
    by (simp add: word_le_nat_alt)
  then show ?thesis
    using unat_byte_less [of b] by (simp add: unat_word_ariths unat_ucast_byte)
qed

lemma encoder_increase:
  assumes "state c \<noteq> SET_HOUR" and "state c \<noteq> SET_MINUTE" and "timerSeconds c \<le> 5999"
    and "ENCODER_PULSES_PER_STEP \<le>s abs_int dir" and "0 <s dir"
  shows "unat (timerSeconds (encoder_section dir c)) =
     (if unat (timerSeconds c) + unat (inc_step (state c) (timerSeconds c) dir) < 6000
      then unat (timerSeconds c) + unat (inc_step (state c) (timerSeconds c) dir)
      else unat (timerSeconds c))"
proof -
  let ?s = "inc_step (state c) (timerSeconds c) dir"
  have "timerSeconds c + ucast ?s < 6000 \<longleftrightarrow> unat (timerSeconds c) + unat ?s < 6000"
    using unat_add_byte [OF assms(3), of ?s] by (simp add: word_less_nat_alt)
  then show ?thesis
    using assms unat_add_byte [OF assms(3), of ?s]
    by (cases "state c = COUNTDOWN") (auto simp add: encoder_section_def timer_adjust_def Let_def)
qed

lemma inc_step_snapped:
  "st \<noteq> COUNTDOWN \<Longrightarrow>
   unat (inc_step st ts dir) = unat (stepSize ts dir) - unat ts mod unat (stepSize ts dir)"
  by (simp add: inc_step_def Let_def unat_snap stepSize_pos)

lemma inc_step_full: "inc_step COUNTDOWN ts dir = stepSize ts dir"
  by (simp add: inc_step_def)


text \<open>
  C4 (as amended). The step is read off the table at the timer plus the signed encoder
  reading, the sum taken modulo \<open>2^16\<close> as the unsigned addition of the source does:
  above 360 it is 60, above 180 it is 30, above 60 it is 15; otherwise it is 10 when the
  timer itself is 0 and 5 when it is not. On an upward step outside \<^verbatim>\<open>COUNTDOWN\<close> (and
  outside the two clock-setting modes) the increment is the step less the remainder of the
  timer by the step, so that timer plus increment is a multiple of the step; in
  \<^verbatim>\<open>COUNTDOWN\<close> the increment is the whole step. Either way the increment is added when
  the sum is below 6000 and dropped otherwise.
\<close>

theorem step_policy:
  "stepSize ts dir =
     (let v = (uint ts + sint dir) mod 65536 in
      if 360 < v then 60 else if 180 < v then 30 else if 60 < v then 15
      else if ts = 0 then 10 else 5) \<and>
   (state c \<noteq> SET_HOUR \<and> state c \<noteq> SET_MINUTE \<and> state c \<noteq> COUNTDOWN \<and>
    timerSeconds c \<le> 5999 \<and> ENCODER_PULSES_PER_STEP \<le>s abs_int d \<and> 0 <s d \<longrightarrow>
      (let step = unat (stepSize (timerSeconds c) d);
           inc = step - unat (timerSeconds c) mod step
       in unat (timerSeconds (encoder_section d c)) =
            (if unat (timerSeconds c) + inc < 6000 then unat (timerSeconds c) + inc
             else unat (timerSeconds c)) \<and>
          (unat (timerSeconds c) + inc) mod step = 0)) \<and>
   (state c = COUNTDOWN \<and> timerSeconds c \<le> 5999 \<and>
    ENCODER_PULSES_PER_STEP \<le>s abs_int d \<and> 0 <s d \<longrightarrow>
      (let step = unat (stepSize (timerSeconds c) d)
       in unat (timerSeconds (encoder_section d c)) =
            (if unat (timerSeconds c) + step < 6000 then unat (timerSeconds c) + step
             else unat (timerSeconds c))))"
proof (intro conjI impI)
  show "stepSize ts dir =
     (let v = (uint ts + sint dir) mod 65536 in
      if 360 < v then 60 else if 180 < v then 30 else if 60 < v then 15
      else if ts = 0 then 10 else 5)"
    by (rule stepSize_table)
next
  assume h: "state c \<noteq> SET_HOUR \<and> state c \<noteq> SET_MINUTE \<and> state c \<noteq> COUNTDOWN \<and>
    timerSeconds c \<le> 5999 \<and> ENCODER_PULSES_PER_STEP \<le>s abs_int d \<and> 0 <s d"
  have i: "unat (inc_step (state c) (timerSeconds c) d) =
      unat (stepSize (timerSeconds c) d) -
      unat (timerSeconds c) mod unat (stepSize (timerSeconds c) d)"
    using h by (intro inc_step_snapped) simp
  show "let step = unat (stepSize (timerSeconds c) d);
           inc = step - unat (timerSeconds c) mod step
       in unat (timerSeconds (encoder_section d c)) =
            (if unat (timerSeconds c) + inc < 6000 then unat (timerSeconds c) + inc
             else unat (timerSeconds c)) \<and>
          (unat (timerSeconds c) + inc) mod step = 0"
    using h encoder_increase [of c d] snap_multiple [OF stepSize_pos, of "unat (timerSeconds c)" "timerSeconds c" d]
    by (simp add: Let_def i)
next
  assume h: "state c = COUNTDOWN \<and> timerSeconds c \<le> 5999 \<and>
    ENCODER_PULSES_PER_STEP \<le>s abs_int d \<and> 0 <s d"
  show "let step = unat (stepSize (timerSeconds c) d)
       in unat (timerSeconds (encoder_section d c)) =
            (if unat (timerSeconds c) + step < 6000 then unat (timerSeconds c) + step
             else unat (timerSeconds c))"
    using h encoder_increase [of c d] by (simp add: Let_def inc_step_full)
qed

theorem step_policy_witness:
  "state (setting 62) \<noteq> SET_HOUR \<and> state (setting 62) \<noteq> SET_MINUTE \<and>
   state (setting 62) \<noteq> COUNTDOWN \<and> timerSeconds (setting 62) \<le> 5999 \<and>
   ENCODER_PULSES_PER_STEP \<le>s abs_int 4 \<and> 0 <s (4 :: i16) \<and>
   stepSize 62 4 = 15 \<and>
   unat (timerSeconds (encoder_section 4 (setting 62))) = 75 \<and>
   state (counting 62) = COUNTDOWN \<and> timerSeconds (counting 62) \<le> 5999 \<and>
   unat (timerSeconds (encoder_section 4 (counting 62))) = 77"
proof -
  have a: "state (setting 62) \<noteq> SET_HOUR \<and> state (setting 62) \<noteq> SET_MINUTE \<and>
     state (setting 62) \<noteq> COUNTDOWN \<and> timerSeconds (setting 62) \<le> 5999 \<and>
     ENCODER_PULSES_PER_STEP \<le>s abs_int 4 \<and> 0 <s (4 :: i16)"
    by code_simp
  have b: "state (counting 62) = COUNTDOWN \<and> timerSeconds (counting 62) \<le> 5999 \<and>
     ENCODER_PULSES_PER_STEP \<le>s abs_int 4 \<and> 0 <s (4 :: i16)"
    by code_simp
  have v: "timerSeconds (setting 62) = 62" "timerSeconds (counting 62) = 62"
    by (simp_all add: setting_def counting_def)
  have t: "stepSize 62 4 = 15"
    by (simp add: stepSize_def)
  show ?thesis
    using a b t step_policy [of 62 4 "setting 62" 4] step_policy [of 62 4 "counting 62" 4]
    by (simp add: v Let_def)
qed

text \<open>
  The claim as it was stated fails: at a timer of 360 s, which is not above 360, one step
  of the dial upwards (a reading of 4 pulses) uses the step of 60 s where the table read on
  the timer alone gives 30 s, and \<^verbatim>\<open>SET_TIMER\<close> goes from 360 to 420.
\<close>

theorem step_not_from_timer_alone:
  "stepSize 360 4 \<noteq> spec_step_table 360 \<and> spec_step_table 360 = 30 \<and>
   timerSeconds (encoder_section 4 (setting 360)) = 420"
  by code_simp

section \<open>The brightness of the display\<close>

text \<open>
  C8. The band of 10 around the last applied reading does not hold downwards. From
  start-up, in \<^verbatim>\<open>CLOCK\<close>, a first refresh that reads 505 applies brightness 7 and
  records 505; the next refresh reads 495, which is 10 below and inside the band, and the
  brightness drops to 1: the difference \<^verbatim>\<open>a - lastLDRReading\<close> is unsigned, so
  \<^verbatim>\<open>abs\<close> returns 65526.
\<close>

theorem brightness_drops_inside_band:
  "state (run started [light_at 200 505]) = CLOCK \<and>
   brightness (run started [light_at 200 505]) = 7 \<and>
   lastLDRReading (run started [light_at 200 505]) = 505 \<and>
   abs_unsigned (495 - lastLDRReading (run started [light_at 200 505])) = 65526 \<and>
   brightness (run started [light_at 200 505, light_at 400 495]) = 1"
  by code_simp

end
